theory Spec2Isabelle
  imports Main "HOL-Library.Word"
begin

unbundle bit_operations_syntax

section \<open>Type strings of the cc65 compiler (src/cc65/datatype.c)\<close>

text \<open>
  A type string is a C array of 16-bit tokens (\<open>typedef unsigned short type\<close>) that ends
  with the token \<open>T_END\<close>. A pointer \<open>const type* T\<close> is modelled by the list of the tokens
  stored from \<open>T\<close> to the end of its buffer, so \<open>T[0]\<close> is the head of the list and
  \<open>T + k\<close> is \<open>drop k T\<close>. Reading or writing behind the end of the buffer is the fault
  \<open>OutOfBounds\<close>; a failed \<open>CHECK\<close> is \<open>CheckFailed\<close>; a call of \<open>Internal\<close> is
  \<open>InternalError\<close>; following a handle that names no symbol table entry is \<open>BadPointer\<close>.

  Host data model: \<open>unsigned\<close> and \<open>int\<close> are 32 bits wide. The width of \<open>long\<close> is the
  parameter \<open>LONG_BIT\<close> (32 or 64 on the hosts of the compiler); \<open>GetElementCount\<close> and
  \<open>SizeOf\<close>, the functions that compute with a \<open>long\<close>, are modelled for every width.
  The codec is modelled for every width of \<open>unsigned long\<close>. Where a decoded value is
  cast to \<open>unsigned\<close>, printed, or followed as a handle, it is a 32-bit value (the codec of
  the spec stores 32-bit values); the low 32 bits of a decoded value do not depend on the
  width of \<open>unsigned long\<close> (\<open>Decode_loop_low_bits\<close>).
\<close>

type_synonym type = "16 word"
type_synonym unsigned = "32 word"
type_synonym ulong = "32 word"

datatype fault = CheckFailed | InternalError | OutOfBounds | BadPointer

subsection \<open>Constants of the headers\<close>

text \<open>
  The headers datatype.h, codegen.h and funcdesc.h are not part of the sources at hand.
  Their constants are the fields of a record that every function takes as its first
  argument: the token constants \<open>T_...\<close>, the payload width \<open>DECODE_SIZE\<close> and the sizes
  \<open>SIZEOF_...\<close> of datatype.h, the code generator flags \<open>CF_...\<close> of codegen.h and the
  flag \<open>FD_VARIADIC\<close> of funcdesc.h. The last field is \<open>LONG_BIT\<close>, the number of bits of
  a \<open>long\<close> of the host compiler (limits.h).
\<close>

record header =
  T_END :: type
  T_MASK_TYPE :: type
  T_MASK_CLASS :: type
  T_MASK_QUAL :: type
  T_QUAL_CONST :: type
  T_QUAL_VOLATILE :: type
  T_SIGN_SIGNED :: type
  T_SIGN_UNSIGNED :: type
  T_CLASS_PTR :: type
  T_TYPE_CHAR :: type
  T_TYPE_SHORT :: type
  T_TYPE_INT :: type
  T_TYPE_LONG :: type
  T_TYPE_LONGLONG :: type
  T_TYPE_FLOAT :: type
  T_TYPE_DOUBLE :: type
  T_TYPE_VOID :: type
  T_TYPE_STRUCT :: type
  T_TYPE_UNION :: type
  T_TYPE_ARRAY :: type
  T_TYPE_PTR :: type
  T_TYPE_FUNC :: type
  T_VOID :: type
  T_SCHAR :: type
  T_UCHAR :: type
  T_SHORT :: type
  T_USHORT :: type
  T_INT :: type
  T_UINT :: type
  T_LONG :: type
  T_ULONG :: type
  T_LONGLONG :: type
  T_ULONGLONG :: type
  T_ENUM :: type
  T_FLOAT :: type
  T_DOUBLE :: type
  T_STRUCT :: type
  T_UNION :: type
  T_ARRAY :: type
  T_PTR :: type
  T_FUNC :: type
  DECODE_SIZE :: nat
  SIZEOF_CHAR :: unsigned
  SIZEOF_SHORT :: unsigned
  SIZEOF_INT :: unsigned
  SIZEOF_LONG :: unsigned
  SIZEOF_LONGLONG :: unsigned
  SIZEOF_FLOAT :: unsigned
  SIZEOF_DOUBLE :: unsigned
  SIZEOF_PTR :: unsigned
  CF_CHAR :: unsigned
  CF_INT :: unsigned
  CF_LONG :: unsigned
  CF_FLOAT :: unsigned
  CF_UNSIGNED :: unsigned
  CF_FIXARGC :: unsigned
  FD_VARIADIC :: unsigned
  LONG_BIT :: nat

subsection \<open>Symbol table entries and function descriptors\<close>

text \<open>
  A struct or union tag is followed by the encoded address of a \<open>SymEntry\<close>, a function
  tag by the encoded address of a \<open>FuncDesc\<close>. Both live in the symbol table; the memory
  maps an address to the entry stored there. Only the fields read by datatype.c are kept.
\<close>

record SymEntry =
  Name :: string
  V_S_Size :: unsigned

record FuncDesc =
  Flags :: unsigned

record memory =
  SymEntries :: "ulong \<rightharpoonup> SymEntry"
  FuncDescs :: "ulong \<rightharpoonup> FuncDesc"

subsection \<open>Macros of datatype.h\<close>

text \<open>
  Modelled from the spec: the macro \<open>UnqualifiedType\<close> of datatype.h is missing. The spec
  (4.1) has it strip the qualifier bits of a token for switch-style dispatch.
\<close>

definition UnqualifiedType :: "header \<Rightarrow> type \<Rightarrow> type" where
  "UnqualifiedType h T = T AND NOT (T_MASK_QUAL h)"

text \<open>
  Modelled from the spec: the macros \<open>IsTypeArray\<close> and \<open>IsTypeFunc\<close> of datatype.h are
  missing. The spec (4.1) has the base type extracted by mask and compare on the leading
  token, as datatype.c itself does in \<open>ArrayToPtr\<close>
  (\<open>(T[0] & T_MASK_TYPE) == T_TYPE_ARRAY\<close>).
\<close>

definition IsTypeArray :: "header \<Rightarrow> type list \<Rightarrow> fault + bool" where
  "IsTypeArray h T =
     (case T of [] \<Rightarrow> Inl OutOfBounds
      | T0 # _ \<Rightarrow> Inr (T0 AND T_MASK_TYPE h = T_TYPE_ARRAY h))"

definition IsTypeFunc :: "header \<Rightarrow> type list \<Rightarrow> fault + bool" where
  "IsTypeFunc h T =
     (case T of [] \<Rightarrow> Inl OutOfBounds
      | T0 # _ \<Rightarrow> Inr (T0 AND T_MASK_TYPE h = T_TYPE_FUNC h))"

subsection \<open>Length and copy\<close>

text \<open>\<open>TypeLen\<close>: walk to the first \<open>T_END\<close> and return the distance.\<close>

fun TypeLen :: "header \<Rightarrow> type list \<Rightarrow> fault + nat" where
  "TypeLen h [] = Inl OutOfBounds"
| "TypeLen h (T0 # T) =
     (if T0 \<noteq> T_END h
      then (case TypeLen h T of Inl e \<Rightarrow> Inl e | Inr n \<Rightarrow> Inr (Suc n))
      else Inr 0)"

text \<open>
  \<open>TypeCpy\<close>: the do-while loop copies one token and stops after it has copied a zero
  token. The result is the destination buffer after the copy.
\<close>

fun TypeCpy :: "type list \<Rightarrow> type list \<Rightarrow> fault + type list" where
  "TypeCpy Dest [] = Inl OutOfBounds"
| "TypeCpy [] (T # Src) = Inl OutOfBounds"
| "TypeCpy (d # Dest) (T # Src) =
     (if T \<noteq> 0
      then (case TypeCpy Dest Src of Inl e \<Rightarrow> Inl e | Inr r \<Rightarrow> Inr (T # r))
      else Inr (T # Dest))"

text \<open>
  \<open>TypeAlloc\<close> returns a fresh block of \<open>Len\<close> tokens. What the block holds is not
  defined; \<open>fill\<close> gives the token found in each slot.
\<close>

definition TypeAlloc :: "(nat \<Rightarrow> type) \<Rightarrow> nat \<Rightarrow> type list" where
  "TypeAlloc fill Len = map fill [0..<Len]"

text \<open>\<open>memcpy\<close> of \<open>n\<close> tokens; the result is the destination after the copy.\<close>

definition memcpy :: "type list \<Rightarrow> type list \<Rightarrow> nat \<Rightarrow> fault + type list" where
  "memcpy Dest Src n =
     (if n \<le> length Dest \<and> n \<le> length Src
      then Inr (take n Src @ drop n Dest) else Inl OutOfBounds)"

subsection \<open>The codec for auxiliary data\<close>

text \<open>
  \<open>Encode\<close> writes \<open>DECODE_SIZE\<close> tokens through the pointer \<open>Type\<close>; the result is the
  memory from \<open>Type\<close> on after the loop. The cast \<open>(type) Val\<close> keeps the low 16 bits.
\<close>

fun Encode_loop :: "nat \<Rightarrow> type list \<Rightarrow> 'a::len word \<Rightarrow> fault + type list" where
  "Encode_loop 0 Type Val = Inr Type"
| "Encode_loop (Suc k) [] Val = Inl OutOfBounds"
| "Encode_loop (Suc k) (x # Type) Val =
     (case Encode_loop k Type (drop_bit 15 Val) of
        Inl e \<Rightarrow> Inl e
      | Inr r \<Rightarrow> Inr ((ucast Val OR 0x8000) # r))"

definition Encode :: "header \<Rightarrow> type list \<Rightarrow> 'a::len word \<Rightarrow> fault + type list" where
  "Encode h Type Val = Encode_loop (DECODE_SIZE h) Type Val"

text \<open>\<open>EncodePtr\<close>: the pointer is cast to \<open>unsigned long\<close>, that is, it is its address.\<close>

definition EncodePtr :: "header \<Rightarrow> type list \<Rightarrow> 'a::len word \<Rightarrow> fault + type list" where
  "EncodePtr h Type P = Encode h Type P"

text \<open>
  \<open>Decode\<close>: the loop runs \<open>I\<close> from \<open>DECODE_SIZE - 1\<close> down to 0; the first argument of
  \<open>Decode_loop\<close> is \<open>I + 1\<close>. The first token read is \<open>Type[DECODE_SIZE - 1]\<close>.
\<close>

fun Decode_loop :: "nat \<Rightarrow> type list \<Rightarrow> 'a::len word \<Rightarrow> 'a word" where
  "Decode_loop 0 Type Val = Val"
| "Decode_loop (Suc I) Type Val =
     Decode_loop I Type (push_bit 15 Val OR ucast (Type ! I AND 0x7FFF))"

definition Decode :: "header \<Rightarrow> type list \<Rightarrow> fault + 'a::len word" where
  "Decode h Type =
     (if length Type < DECODE_SIZE h then Inl OutOfBounds
      else Inr (Decode_loop (DECODE_SIZE h) Type 0))"

definition DecodePtr :: "header \<Rightarrow> type list \<Rightarrow> fault + 'a::len word" where
  "DecodePtr h Type = Decode h Type"

text \<open>The tokens that \<open>Encode\<close> produces for a value, as a list.\<close>

fun chunks :: "nat \<Rightarrow> 'a::len word \<Rightarrow> type list" where
  "chunks 0 Val = []"
| "chunks (Suc k) Val = (ucast Val OR 0x8000) # chunks k (drop_bit 15 Val)"

subsection \<open>Default char type\<close>

text \<open>
  \<open>IS_Get (&SignedChars)\<close> reads the current value of the setting; that value is the
  argument \<open>SignedChars\<close>. \<open>int\<close> is a 32-bit word, \<open>~0xFF\<close> is \<open>NOT 0xFF\<close>.
\<close>

definition SignExtendChar :: "32 word \<Rightarrow> 32 word \<Rightarrow> 32 word" where
  "SignExtendChar SignedChars C =
     (if SignedChars \<noteq> 0 \<and> C AND 0x80 \<noteq> 0 then C OR NOT 0xFF else C AND 0xFF)"

definition GetDefaultChar :: "header \<Rightarrow> 32 word \<Rightarrow> type" where
  "GetDefaultChar h SignedChars = (if SignedChars \<noteq> 0 then T_SCHAR h else T_UCHAR h)"

definition GetCharArrayType ::
  "header \<Rightarrow> 32 word \<Rightarrow> (nat \<Rightarrow> type) \<Rightarrow> unsigned \<Rightarrow> fault + type list" where
  "GetCharArrayType h SignedChars fill Len =
     (let T = TypeAlloc fill (1 + DECODE_SIZE h + 2);
          T = T[0 := T_ARRAY h];
          T = T[DECODE_SIZE h + 1 := GetDefaultChar h SignedChars];
          T = T[DECODE_SIZE h + 2 := T_END h]
      in case Encode h (drop 1 T) (ucast Len :: ulong) of
           Inl e \<Rightarrow> Inl e
         | Inr r \<Rightarrow> Inr (take 1 T @ r))"

subsection \<open>Pointer to a type\<close>

definition PointerTo :: "header \<Rightarrow> (nat \<Rightarrow> type) \<Rightarrow> type list \<Rightarrow> fault + type list" where
  "PointerTo h fill T =
     (case TypeLen h T of
        Inl e \<Rightarrow> Inl e
      | Inr n \<Rightarrow>
          (let Size = n + 1;
               P = TypeAlloc fill (Size + 1);
               P = P[0 := T_PTR h]
           in case memcpy (drop 1 P) T Size of
                Inl e \<Rightarrow> Inl e
              | Inr r \<Rightarrow> Inr (take 1 P @ r)))"

subsection \<open>Sizes\<close>

text \<open>
  \<open>GetElementCount\<close> returns \<open>(unsigned) Decode (T+1)\<close> as a \<open>long\<close>. The cast keeps the
  low 32 bits. The conversion to \<open>long\<close> keeps the value when \<open>long\<close> is wider than 32
  bits; a \<open>long\<close> of 32 bits gets the same bits read as a two's complement number (what
  the host compilers do). Both are \<open>signed_take_bit (LONG_BIT - 1)\<close> of the value. The
  result is the number that the \<open>long\<close> holds.
\<close>

definition GetElementCount :: "header \<Rightarrow> type list \<Rightarrow> fault + int" where
  "GetElementCount h T =
     (case IsTypeArray h T of
        Inl e \<Rightarrow> Inl e
      | Inr False \<Rightarrow> Inl CheckFailed
      | Inr True \<Rightarrow>
          (case (Decode h (drop 1 T) :: fault + ulong) of
             Inl e \<Rightarrow> Inl e
           | Inr v \<Rightarrow> Inr (signed_take_bit (LONG_BIT h - 1) (uint (ucast v :: unsigned)))))"

definition GetElementType :: "header \<Rightarrow> type list \<Rightarrow> fault + type list" where
  "GetElementType h T =
     (case IsTypeArray h T of
        Inl e \<Rightarrow> Inl e
      | Inr False \<Rightarrow> Inl CheckFailed
      | Inr True \<Rightarrow> Inr (drop (DECODE_SIZE h + 1) T))"

text \<open>
  \<open>SizeOf\<close>: the switch on the unqualified leading token, its cases in the order of the
  source (the case labels of a C switch are pairwise distinct). With \<open>T = T0 # T1\<close>,
  \<open>T + 1\<close> is \<open>T1\<close> and \<open>T + DECODE_SIZE + 1\<close> is \<open>drop DECODE_SIZE T1\<close>. The product of
  the array case multiplies a \<open>long\<close> and an \<open>unsigned\<close>: it is computed in \<open>long\<close> when
  \<open>long\<close> is wider than \<open>unsigned\<close> and in \<open>unsigned long\<close> otherwise, and the \<open>return\<close>
  converts it to \<open>unsigned\<close>. Either way the value returned is the product of the two
  numbers modulo \<open>2 ^ 32\<close> (a product beyond the range of a 64-bit \<open>long\<close> wraps around).
\<close>

fun SizeOf :: "header \<Rightarrow> memory \<Rightarrow> type list \<Rightarrow> fault + unsigned" where
  "SizeOf h mem [] = Inl OutOfBounds"
| "SizeOf h mem (T0 # T1) =
     (let U = UnqualifiedType h T0 in
      if U = T_VOID h then Inr 0
      else if U = T_SCHAR h \<or> U = T_UCHAR h then Inr (SIZEOF_CHAR h)
      else if U = T_SHORT h \<or> U = T_USHORT h then Inr (SIZEOF_SHORT h)
      else if U = T_INT h \<or> U = T_UINT h then Inr (SIZEOF_INT h)
      else if U = T_PTR h \<or> U = T_FUNC h then Inr (SIZEOF_PTR h)
      else if U = T_LONG h \<or> U = T_ULONG h then Inr (SIZEOF_LONG h)
      else if U = T_LONGLONG h \<or> U = T_ULONGLONG h then Inr (SIZEOF_LONGLONG h)
      else if U = T_ENUM h then Inr (SIZEOF_INT h)
      else if U = T_FLOAT h then Inr (SIZEOF_FLOAT h)
      else if U = T_DOUBLE h then Inr (SIZEOF_DOUBLE h)
      else if U = T_STRUCT h \<or> U = T_UNION h then
        (case (DecodePtr h T1 :: fault + ulong) of
           Inl e \<Rightarrow> Inl e
         | Inr p \<Rightarrow>
             (case SymEntries mem p of
                None \<Rightarrow> Inl BadPointer
              | Some Entry \<Rightarrow> Inr (V_S_Size Entry)))
      else if U = T_ARRAY h then
        (case GetElementCount h (T0 # T1) of
           Inl e \<Rightarrow> Inl e
         | Inr ElementCount \<Rightarrow>
             if ElementCount < 0 then Inr 0
             else (case SizeOf h mem (drop (DECODE_SIZE h) T1) of
                     Inl e \<Rightarrow> Inl e
                   | Inr s \<Rightarrow> Inr (word_of_int (ElementCount * uint s))))
      else Inl InternalError)"

definition PSizeOf :: "header \<Rightarrow> memory \<Rightarrow> type list \<Rightarrow> fault + unsigned" where
  "PSizeOf h mem T =
     (case T of
        [] \<Rightarrow> Inl OutOfBounds
      | T0 # _ \<Rightarrow>
          if T0 AND T_MASK_CLASS h \<noteq> T_CLASS_PTR h then Inl CheckFailed
          else (case IsTypeArray h T of
                  Inl e \<Rightarrow> Inl e
                | Inr True \<Rightarrow> SizeOf h mem (drop (DECODE_SIZE h + 1) T)
                | Inr False \<Rightarrow> SizeOf h mem (drop 1 T)))"

text \<open>
  \<open>Error\<close> reports a diagnostic and returns. A function that may call it returns its
  value together with the list of the diagnostics it has reported.
\<close>

definition CheckedSizeOf :: "header \<Rightarrow> memory \<Rightarrow> type list \<Rightarrow> fault + (unsigned \<times> string list)" where
  "CheckedSizeOf h mem T =
     (case SizeOf h mem T of
        Inl e \<Rightarrow> Inl e
      | Inr Size \<Rightarrow>
          if Size = 0 then Inr (SIZEOF_CHAR h, [''Size of data type is unknown''])
          else Inr (Size, []))"

definition CheckedPSizeOf :: "header \<Rightarrow> memory \<Rightarrow> type list \<Rightarrow> fault + (unsigned \<times> string list)" where
  "CheckedPSizeOf h mem T =
     (case PSizeOf h mem T of
        Inl e \<Rightarrow> Inl e
      | Inr Size \<Rightarrow>
          if Size = 0 then Inr (SIZEOF_CHAR h, [''Size of data type is unknown''])
          else Inr (Size, []))"

subsection \<open>Code generator class\<close>

definition TypeOf :: "header \<Rightarrow> memory \<Rightarrow> type list \<Rightarrow> fault + (unsigned \<times> string list)" where
  "TypeOf h mem T =
     (case T of
        [] \<Rightarrow> Inl OutOfBounds
      | T0 # T1 \<Rightarrow>
          (let U = UnqualifiedType h T0 in
           if U = T_SCHAR h then Inr (CF_CHAR h, [])
           else if U = T_UCHAR h then Inr (CF_CHAR h OR CF_UNSIGNED h, [])
           else if U = T_SHORT h \<or> U = T_INT h \<or> U = T_ENUM h then Inr (CF_INT h, [])
           else if U = T_USHORT h \<or> U = T_UINT h \<or> U = T_PTR h \<or> U = T_ARRAY h
             then Inr (CF_INT h OR CF_UNSIGNED h, [])
           else if U = T_LONG h then Inr (CF_LONG h, [])
           else if U = T_ULONG h then Inr (CF_LONG h OR CF_UNSIGNED h, [])
           else if U = T_FLOAT h \<or> U = T_DOUBLE h then Inr (CF_FLOAT h, [])
           else if U = T_FUNC h then
             (case (DecodePtr h T1 :: fault + ulong) of
                Inl e \<Rightarrow> Inl e
              | Inr p \<Rightarrow>
                  (case FuncDescs mem p of
                     None \<Rightarrow> Inl BadPointer
                   | Some F \<Rightarrow>
                       Inr (if Flags F AND FD_VARIADIC h \<noteq> 0 then 0 else CF_FIXARGC h, [])))
           else if U = T_STRUCT h \<or> U = T_UNION h then Inr (CF_INT h OR CF_UNSIGNED h, [])
           else Inr (CF_INT h, [''Illegal type''])))"

subsection \<open>Indirection and qualifiers\<close>

definition Indirect :: "header \<Rightarrow> type list \<Rightarrow> fault + type list" where
  "Indirect h T =
     (case T of
        [] \<Rightarrow> Inl OutOfBounds
      | T0 # _ \<Rightarrow>
          if T0 AND T_MASK_CLASS h \<noteq> T_CLASS_PTR h then Inl CheckFailed
          else (case IsTypeArray h T of
                  Inl e \<Rightarrow> Inl e
                | Inr True \<Rightarrow> Inr (drop (DECODE_SIZE h + 1) T)
                | Inr False \<Rightarrow> Inr (drop 1 T)))"

definition GetQualifier :: "header \<Rightarrow> type list \<Rightarrow> fault + type" where
  "GetQualifier h T =
     (case IsTypeArray h T of
        Inl e \<Rightarrow> Inl e
      | Inr a \<Rightarrow>
          (case (if a then drop (DECODE_SIZE h + 1) T else T) of
             [] \<Rightarrow> Inl OutOfBounds
           | T0 # _ \<Rightarrow> Inr (T0 AND T_QUAL_CONST h)))"

definition IsQualConst :: "header \<Rightarrow> type list \<Rightarrow> fault + bool" where
  "IsQualConst h T =
     (case GetQualifier h T of
        Inl e \<Rightarrow> Inl e
      | Inr q \<Rightarrow> Inr (q AND T_QUAL_CONST h \<noteq> 0))"

definition IsQualVolatile :: "header \<Rightarrow> type list \<Rightarrow> fault + bool" where
  "IsQualVolatile h T =
     (case GetQualifier h T of
        Inl e \<Rightarrow> Inl e
      | Inr q \<Rightarrow> Inr (q AND T_QUAL_VOLATILE h \<noteq> 0))"

subsection \<open>Rendering\<close>

text \<open>
  The printers write to a \<open>FILE\<close>; the model returns the text written. \<open>dec\<close> is the
  conversion \<open>%lu\<close> of \<open>fprintf\<close>, \<open>hex4\<close> the conversion \<open>%04X\<close> of a 16-bit value.
\<close>

function dec :: "nat \<Rightarrow> string" where
  "dec n = (if n < 10 then [''0123456789'' ! n]
            else dec (n div 10) @ [''0123456789'' ! (n mod 10)])"
  by pat_completeness auto
termination
  by (relation "measure (\<lambda>n. n)") auto

definition hex4 :: "type \<Rightarrow> string" where
  "hex4 T = map (\<lambda>i. ''0123456789ABCDEF'' ! unat (drop_bit (4 * i) T AND 0xF)) [3, 2, 1, 0]"

definition PrintTypeComp :: "type \<Rightarrow> type \<Rightarrow> string \<Rightarrow> type \<times> string" where
  "PrintTypeComp T Mask Nm =
     (if T AND Mask = Mask then (T AND NOT Mask, Nm @ '' '') else (T, []))"

text \<open>
  The first statements of the loop body of \<open>PrintType\<close>: qualifiers and signedness are
  printed and removed from the token. The result is the token left and the text printed.
\<close>

definition PrintQualSign :: "header \<Rightarrow> type \<Rightarrow> type \<times> string" where
  "PrintQualSign h T0 =
     (let (T, o1) = PrintTypeComp T0 (T_QUAL_CONST h) ''const'';
          (T, o2) = PrintTypeComp T (T_QUAL_VOLATILE h) ''volatile'';
          (T, o3) = (if T AND T_MASK_TYPE h \<noteq> T_TYPE_INT h \<and> T AND T_MASK_TYPE h \<noteq> T_TYPE_LONG h
                     then PrintTypeComp T (T_SIGN_SIGNED h) ''signed'' else (T, []));
          (T, o4) = PrintTypeComp T (T_SIGN_UNSIGNED h) ''unsigned''
      in (T, o1 @ o2 @ o3 @ o4))"

text \<open>Text \<open>s\<close> is printed, then the printer goes on with \<open>r\<close>.\<close>

definition then_print :: "string \<Rightarrow> fault + string \<Rightarrow> fault + string" where
  "then_print s r = (case r of Inl e \<Rightarrow> Inl e | Inr t \<Rightarrow> Inr (s @ t))"

text \<open>
  \<open>PrintType\<close>: one equation is one round of the while loop. \<open>Type1\<close> is the pointer
  \<open>Type\<close> after \<open>*Type++\<close>. A \<open>break\<close> goes on with the next round, the array and pointer
  cases call \<open>PrintType\<close> and return.
\<close>

fun PrintType :: "header \<Rightarrow> memory \<Rightarrow> type list \<Rightarrow> fault + string" where
  "PrintType h mem [] = Inl OutOfBounds"
| "PrintType h mem (T0 # Type1) =
     (if T0 = T_END h then Inr []
      else
        (let T = fst (PrintQualSign h T0);
             pre = snd (PrintQualSign h T0);
             B = T AND T_MASK_TYPE h
         in
         if B = T_TYPE_CHAR h then then_print (pre @ ''char'') (PrintType h mem Type1)
         else if B = T_TYPE_SHORT h then then_print (pre @ ''short'') (PrintType h mem Type1)
         else if B = T_TYPE_INT h then then_print (pre @ ''int'') (PrintType h mem Type1)
         else if B = T_TYPE_LONG h then then_print (pre @ ''long'') (PrintType h mem Type1)
         else if B = T_TYPE_LONGLONG h then then_print (pre @ ''long long'') (PrintType h mem Type1)
         else if B = T_TYPE_FLOAT h then then_print (pre @ ''float'') (PrintType h mem Type1)
         else if B = T_TYPE_DOUBLE h then then_print (pre @ ''double'') (PrintType h mem Type1)
         else if B = T_TYPE_VOID h then then_print (pre @ ''void'') (PrintType h mem Type1)
         else if B = T_TYPE_STRUCT h then
           (case (DecodePtr h Type1 :: fault + ulong) of
              Inl e \<Rightarrow> Inl e
            | Inr p \<Rightarrow>
                (case SymEntries mem p of
                   None \<Rightarrow> Inl BadPointer
                 | Some E \<Rightarrow>
                     then_print (pre @ ''struct '' @ Name E)
                       (PrintType h mem (drop (DECODE_SIZE h) Type1))))
         else if B = T_TYPE_UNION h then
           (case (DecodePtr h Type1 :: fault + ulong) of
              Inl e \<Rightarrow> Inl e
            | Inr p \<Rightarrow>
                (case SymEntries mem p of
                   None \<Rightarrow> Inl BadPointer
                 | Some E \<Rightarrow>
                     then_print (pre @ ''union '' @ Name E)
                       (PrintType h mem (drop (DECODE_SIZE h) Type1))))
         else if B = T_TYPE_ARRAY h then
           (case PrintType h mem (drop (DECODE_SIZE h) Type1) of
              Inl e \<Rightarrow> Inl e
            | Inr r \<Rightarrow>
                (case (Decode h Type1 :: fault + ulong) of
                   Inl e \<Rightarrow> Inl e
                 | Inr Sz \<Rightarrow>
                     Inr (pre @ r @ (if Sz = 0 then ''[]'' else ''['' @ dec (unat Sz) @ '']''))))
         else if B = T_TYPE_PTR h then
           (case PrintType h mem Type1 of
              Inl e \<Rightarrow> Inl e
            | Inr r \<Rightarrow> Inr (pre @ r @ ''*''))
         else if B = T_TYPE_FUNC h then
           then_print (pre @ ''function returning '') (PrintType h mem (drop (DECODE_SIZE h) Type1))
         else then_print (pre @ ''unknown type: '' @ hex4 T) (PrintType h mem Type1)))"

subsection \<open>Well-formed headers and type strings\<close>

text \<open>
  The case labels of the switch in \<open>SizeOf\<close>, and those of the switch in \<open>PrintType\<close>.
\<close>

definition tags :: "header \<Rightarrow> type list" where
  "tags h = [T_VOID h, T_SCHAR h, T_UCHAR h, T_SHORT h, T_USHORT h, T_INT h, T_UINT h,
             T_PTR h, T_FUNC h, T_LONG h, T_ULONG h, T_LONGLONG h, T_ULONGLONG h,
             T_ENUM h, T_FLOAT h, T_DOUBLE h, T_STRUCT h, T_UNION h, T_ARRAY h]"

definition base_types :: "header \<Rightarrow> type list" where
  "base_types h = [T_TYPE_CHAR h, T_TYPE_SHORT h, T_TYPE_INT h, T_TYPE_LONG h,
                   T_TYPE_LONGLONG h, T_TYPE_FLOAT h, T_TYPE_DOUBLE h, T_TYPE_VOID h,
                   T_TYPE_STRUCT h, T_TYPE_UNION h, T_TYPE_ARRAY h, T_TYPE_PTR h,
                   T_TYPE_FUNC h]"

text \<open>
  The case labels of the switch in \<open>TypeOf\<close>: the types that have a code generator
  class. Every other type takes the default branch.
\<close>

definition TypeOf_labels :: "header \<Rightarrow> type list" where
  "TypeOf_labels h = [T_SCHAR h, T_UCHAR h, T_SHORT h, T_INT h, T_ENUM h, T_USHORT h,
                      T_UINT h, T_PTR h, T_ARRAY h, T_LONG h, T_ULONG h, T_FLOAT h,
                      T_DOUBLE h, T_FUNC h, T_STRUCT h, T_UNION h]"

text \<open>
  Modelled from the spec: the values of the constants of datatype.h are missing. The
  functions are verified for every header with these properties:
  \<^item> the sentinel is the zero token (\<open>TypeCpy\<close> stops on zero, \<open>TypeLen\<close> on \<open>T_END\<close>);
  \<^item> the case labels of a switch are pairwise distinct (a rule of C), and no type tag is
    the sentinel;
  \<^item> class, base type, sign and qualifiers are encoded by disjoint bit masks (spec, 3):
    the two qualifier bits differ, the qualifier mask is disjoint from the base type mask,
    and a type tag has no qualifier bit set;
  \<^item> the tags of pointer and array have their own base type, the pointer tag has the
    pointer class.
\<close>

definition header_ok :: "header \<Rightarrow> bool" where
  "header_ok h \<longleftrightarrow>
     T_END h = 0 \<and>
     distinct (tags h) \<and>
     T_END h \<notin> set (tags h) \<and>
     distinct (base_types h) \<and>
     list_all (\<lambda>t. t AND T_MASK_QUAL h = 0) (tags h) \<and>
     T_QUAL_CONST h AND T_QUAL_VOLATILE h = 0 \<and>
     T_MASK_TYPE h AND T_MASK_QUAL h = 0 \<and>
     T_PTR h AND T_MASK_TYPE h = T_TYPE_PTR h \<and>
     T_ARRAY h AND T_MASK_TYPE h = T_TYPE_ARRAY h \<and>
     T_PTR h AND T_MASK_CLASS h = T_CLASS_PTR h"

text \<open>
  A well-formed type string (spec, 3): a tag; after an array, function, struct or union
  tag a payload of \<open>DECODE_SIZE\<close> tokens that carry the marker bit; after a pointer tag the
  type pointed to, after an array payload the element type, after a function payload the
  return type; the sentinel after a basic type and after a struct or union payload.
\<close>

definition is_payload :: "header \<Rightarrow> type list \<Rightarrow> bool" where
  "is_payload h P \<longleftrightarrow> length P = DECODE_SIZE h \<and> list_all (\<lambda>c. c AND 0x8000 \<noteq> 0) P"

fun wf_type :: "header \<Rightarrow> type list \<Rightarrow> bool" where
  "wf_type h [] = False"
| "wf_type h (T0 # T1) =
     (let U = UnqualifiedType h T0 in
      if U = T_PTR h then wf_type h T1
      else if U = T_ARRAY h \<or> U = T_FUNC h then
        is_payload h (take (DECODE_SIZE h) T1) \<and> wf_type h (drop (DECODE_SIZE h) T1)
      else if U = T_STRUCT h \<or> U = T_UNION h then
        is_payload h (take (DECODE_SIZE h) T1) \<and> drop (DECODE_SIZE h) T1 = [T_END h]
      else U \<in> set (tags h) \<and> T1 = [T_END h])"

text \<open>
  A header that satisfies \<open>header_ok\<close>, to run the functions on concrete type strings:
  base type in bits 0 to 4, class in bits 5 to 7, sign in bits 8 and 9, size modifier in
  bits 10 and 11, qualifiers in bits 12 and 13, payloads of five tokens, a \<open>long\<close> of 32
  bits. \<open>sample_header64\<close> is the same header on a host with a \<open>long\<close> of 64 bits.
\<close>

definition sample_header :: header where
  "sample_header = \<lparr>
     T_END = 0x0000, T_MASK_TYPE = 0x001F, T_MASK_CLASS = 0x00E0, T_MASK_QUAL = 0x3000,
     T_QUAL_CONST = 0x1000, T_QUAL_VOLATILE = 0x2000,
     T_SIGN_SIGNED = 0x0200, T_SIGN_UNSIGNED = 0x0100, T_CLASS_PTR = 0x0060,
     T_TYPE_CHAR = 0x0001, T_TYPE_SHORT = 0x0002, T_TYPE_INT = 0x0003, T_TYPE_LONG = 0x0004,
     T_TYPE_LONGLONG = 0x0005, T_TYPE_FLOAT = 0x0007, T_TYPE_DOUBLE = 0x0008,
     T_TYPE_VOID = 0x0009, T_TYPE_STRUCT = 0x000A, T_TYPE_UNION = 0x000B,
     T_TYPE_ARRAY = 0x000C, T_TYPE_PTR = 0x000D, T_TYPE_FUNC = 0x000E,
     T_VOID = 0x0009, T_SCHAR = 0x0221, T_UCHAR = 0x0121, T_SHORT = 0x0622,
     T_USHORT = 0x0522, T_INT = 0x0223, T_UINT = 0x0123, T_LONG = 0x0A24, T_ULONG = 0x0924,
     T_LONGLONG = 0x0E25, T_ULONGLONG = 0x0D25, T_ENUM = 0x0226, T_FLOAT = 0x0047,
     T_DOUBLE = 0x0048, T_STRUCT = 0x008A, T_UNION = 0x008B, T_ARRAY = 0x006C,
     T_PTR = 0x006D, T_FUNC = 0x00AE,
     DECODE_SIZE = 5,
     SIZEOF_CHAR = 1, SIZEOF_SHORT = 2, SIZEOF_INT = 2, SIZEOF_LONG = 4, SIZEOF_LONGLONG = 8,
     SIZEOF_FLOAT = 4, SIZEOF_DOUBLE = 4, SIZEOF_PTR = 2,
     CF_CHAR = 0x0003, CF_INT = 0x0001, CF_LONG = 0x0000, CF_FLOAT = 0x0004,
     CF_UNSIGNED = 0x0008, CF_FIXARGC = 0x0200, FD_VARIADIC = 0x0008,
     LONG_BIT = 32 \<rparr>"

definition sample_header64 :: header where
  "sample_header64 = sample_header \<lparr> LONG_BIT := 64 \<rparr>"

definition sample_memory :: memory where
  "sample_memory = \<lparr>
     SymEntries = [0x1000 \<mapsto> \<lparr> Name = ''point'', V_S_Size = 4 \<rparr>],
     FuncDescs = [0x2000 \<mapsto> \<lparr> Flags = 0x0008 \<rparr>] \<rparr>"

section \<open>Running the functions on the sample header\<close>

text \<open>
  The loops over \<open>DECODE_SIZE\<close> unfold one round at a time on a numeral.
\<close>

lemma Decode_loop_numeral:
  "Decode_loop (numeral k) Type Val =
     Decode_loop (pred_numeral k) Type (push_bit 15 Val OR ucast (Type ! pred_numeral k AND 0x7FFF))"
proof -
  have "numeral k = Suc (pred_numeral k)" by (rule numeral_eq_Suc)
  then show ?thesis by (simp only: Decode_loop.simps)
qed

lemma chunks_numeral:
  "chunks (numeral k) Val = (ucast Val OR 0x8000) # chunks (pred_numeral k) (drop_bit 15 Val)"
proof -
  have "numeral k = Suc (pred_numeral k)" by (rule numeral_eq_Suc)
  then show ?thesis by (simp only: chunks.simps)
qed

lemmas sample_eval = sample_header_def sample_memory_def UnqualifiedType_def IsTypeArray_def
  GetElementCount_def Decode_def DecodePtr_def Decode_loop_numeral chunks_numeral
  PrintQualSign_def PrintTypeComp_def then_print_def is_payload_def tags_def

lemma sample_header_ok: "header_ok sample_header"
  by (simp add: header_ok_def sample_header_def tags_def base_types_def)


lemma wf_const_uchar: "wf_type sample_header [0x1121, 0]"
  by (simp add: sample_eval)


section \<open>The codec\<close>

lemma length_chunks: "length (chunks n v) = n"
  by (induction n arbitrary: v) auto

lemma Encode_loop_chunks:
  "n \<le> length Type \<Longrightarrow> Encode_loop n Type v = Inr (chunks n v @ drop n Type)"
  by (induction n Type v rule: Encode_loop.induct) auto


lemma chunks_nth: "i < n \<Longrightarrow> chunks n v ! i = (ucast (drop_bit (15 * i) v) OR 0x8000)"
proof (induction n arbitrary: v i)
  case 0
  then show ?case by simp
next
  case (Suc n)
  show ?case
  proof (cases i)
    case 0
    then show ?thesis by simp
  next
    case (Suc j)
    with Suc.prems have "j < n" by simp
    from Suc.IH [OF this, of "drop_bit 15 v"] Suc show ?thesis
      by (simp add: drop_bit_drop_bit add.commute)
  qed
qed

lemma bit_marker_int: "bit (0x8000 :: int) n \<longleftrightarrow> n = 15"
proof -
  have "(0x8000 :: int) = push_bit 15 1" by simp
  then show ?thesis by (simp only: bit_simps) auto
qed

lemma bit_payload_mask_int: "bit (0x7FFF :: int) n \<longleftrightarrow> n < 15"
proof -
  have "(0x7FFF :: int) = mask 15" by (simp add: mask_eq_exp_minus_1)
  then show ?thesis by (simp only: bit_simps) auto
qed

lemma chunk_payload:
  "(ucast ((ucast (w :: 'a::len word) OR (0x8000 :: type)) AND 0x7FFF) :: 'a word) = take_bit 15 w"
proof (rule bit_eqI)
  fix n
  assume "possible_bit TYPE('a word) n"
  then show "bit (ucast ((ucast w OR (0x8000 :: type)) AND 0x7FFF) :: 'a word) n
      = bit (take_bit 15 w) n"
    by (auto simp add: bit_simps bit_marker_int bit_payload_mask_int)
qed

lemma Decode_loop_chunks:
  "k \<le> n \<Longrightarrow> Decode_loop k (chunks n v @ rest) acc
     = (push_bit (15 * k) acc OR take_bit (15 * k) v)"
proof (induction k arbitrary: acc)
  case 0
  then show ?case by simp
next
  case (Suc k)
  then have kn: "k < n" by simp
  have nth: "(chunks n v @ rest) ! k = (ucast (drop_bit (15 * k) v) OR 0x8000)"
    using kn by (simp add: nth_append length_chunks chunks_nth)
  have "Decode_loop (Suc k) (chunks n v @ rest) acc
      = (push_bit (15 * k) (push_bit 15 acc OR take_bit 15 (drop_bit (15 * k) v))
           OR take_bit (15 * k) v)"
    using Suc.IH [of "push_bit 15 acc OR take_bit 15 (drop_bit (15 * k) v)"] kn
    by (simp add: nth chunk_payload)
  also have "\<dots> = (push_bit (15 * Suc k) acc OR take_bit (15 * Suc k) v)"
    by (rule bit_eqI) (auto simp add: bit_simps add.commute)
  finally show ?case .
qed

lemma Decode_loop_low_bits:
  fixes acc :: "'a::len word"
  assumes "LENGTH('b::len) \<le> LENGTH('a)"
  shows "(ucast (Decode_loop k Type acc) :: 'b word) = Decode_loop k Type (ucast acc)"
proof (induction k arbitrary: acc)
  case 0
  then show ?case by simp
next
  case (Suc k)
  have "(ucast (push_bit 15 acc OR ucast (Type ! k AND 0x7FFF)) :: 'b word)
      = push_bit 15 (ucast acc) OR ucast (Type ! k AND 0x7FFF)"
    using assms by (intro bit_eqI) (auto simp add: bit_simps)
  with Suc show ?case by simp
qed

lemma Encode_chunks:
  "DECODE_SIZE h \<le> length Type \<Longrightarrow>
     Encode h Type v = Inr (chunks (DECODE_SIZE h) v @ drop (DECODE_SIZE h) Type)"
  by (simp add: Encode_def Encode_loop_chunks)

lemma Decode_chunks:
  "Decode h (chunks (DECODE_SIZE h) v @ rest) = Inr (take_bit (15 * DECODE_SIZE h) v)"
  by (simp add: Decode_def length_chunks Decode_loop_chunks)

lemma take_bit_fits:
  fixes v :: "'a::len word"
  assumes "unat v < 2 ^ n"
  shows "take_bit n v = v"
proof -
  have "unat (take_bit n v) = unat v"
    using assms by (simp add: unsigned_take_bit_eq take_bit_nat_eq_self)
  then show ?thesis by (rule unsigned_word_eqI)
qed




text \<open>
  C1. With at least three payload tokens (the contract of the codec: the payload holds
  the widest value encoded), every value below \<open>2 ^ 31\<close> that is encoded into a buffer
  with room for the payload is decoded to itself; and every handle that fits into the
  payload survives \<open>EncodePtr\<close> followed by \<open>DecodePtr\<close>.
\<close>

theorem Decode_Encode_roundtrip:
  fixes v p :: "'a::len word"
  assumes "DECODE_SIZE h \<le> length Type"
    and "3 \<le> DECODE_SIZE h"
    and "unat v < 2 ^ 31"
    and "unat p < 2 ^ (15 * DECODE_SIZE h)"
  shows "(\<exists>r. Encode h Type v = Inr r \<and> Decode h r = Inr v) \<and>
         (\<exists>r. EncodePtr h Type p = Inr r \<and> DecodePtr h r = Inr p)"
proof -
  have "(2::nat) ^ 31 \<le> 2 ^ (15 * DECODE_SIZE h)"
    using assms(2) by (intro power_increasing) auto
  with assms(3) have v: "unat v < 2 ^ (15 * DECODE_SIZE h)" by simp
  have "Decode h (chunks (DECODE_SIZE h) v @ drop (DECODE_SIZE h) Type) = Inr v"
    by (simp add: Decode_chunks take_bit_fits [OF v])
  moreover have "DecodePtr h (chunks (DECODE_SIZE h) p @ drop (DECODE_SIZE h) Type) = Inr p"
    by (simp add: DecodePtr_def Decode_chunks take_bit_fits [OF assms(4)])
  ultimately show ?thesis
    using assms(1) by (simp add: EncodePtr_def Encode_chunks)
qed

theorem Decode_Encode_roundtrip_witness:
  "DECODE_SIZE sample_header \<le> length (replicate 5 (0 :: type)) \<and>
   3 \<le> DECODE_SIZE sample_header \<and>
   unat (0x12345678 :: ulong) < 2 ^ 31 \<and>
   unat (0xFFFF0000 :: ulong) < 2 ^ (15 * DECODE_SIZE sample_header) \<and>
   (\<exists>r. Encode sample_header (replicate 5 0) (0x12345678 :: ulong) = Inr r \<and>
        Decode sample_header r = Inr (0x12345678 :: ulong)) \<and>
   (\<exists>r. EncodePtr sample_header (replicate 5 0) (0xFFFF0000 :: ulong) = Inr r \<and>
        DecodePtr sample_header r = Inr (0xFFFF0000 :: ulong))"
proof -
  have a: "DECODE_SIZE sample_header \<le> length (replicate 5 (0 :: type))"
    by (simp add: sample_header_def)
  have b: "3 \<le> DECODE_SIZE sample_header"
    by (simp add: sample_header_def)
  have c: "unat (0x12345678 :: ulong) < 2 ^ 31" by simp
  have d: "unat (0xFFFF0000 :: ulong) < 2 ^ (15 * DECODE_SIZE sample_header)"
    by (simp add: sample_header_def)
  show ?thesis
    using a b c d Decode_Encode_roundtrip [OF a b c d] by blast
qed

section \<open>Facts about the header\<close>

lemma and_not_disjoint:
  fixes x y :: "'a::len word"
  assumes "x AND y = 0"
  shows "x AND NOT y = x"
proof (rule bit_eqI)
  fix n
  assume "possible_bit TYPE('a word) n"
  from assms have "bit (x AND y) n = bit (0 :: 'a word) n" by simp
  then show "bit (x AND NOT y) n = bit x n"
    by (auto simp add: bit_simps dest: bit_imp_le_length)
qed


lemma UnqualifiedType_tag:
  "header_ok h \<Longrightarrow> t \<in> set (tags h) \<Longrightarrow> UnqualifiedType h t = t"
  by (auto simp add: header_ok_def UnqualifiedType_def list_all_iff and_not_disjoint)


lemma UnqualifiedType_zero: "UnqualifiedType h 0 = 0"
  by (simp add: UnqualifiedType_def)

lemma tag_nonzero:
  "header_ok h \<Longrightarrow> UnqualifiedType h t \<in> set (tags h) \<Longrightarrow> t \<noteq> 0"
  by (auto simp add: header_ok_def UnqualifiedType_zero)

lemma tag_mem:
  "T_PTR h \<in> set (tags h)" "T_ARRAY h \<in> set (tags h)" "T_FUNC h \<in> set (tags h)"
  "T_STRUCT h \<in> set (tags h)" "T_UNION h \<in> set (tags h)" "T_VOID h \<in> set (tags h)"
  by (simp_all add: tags_def)

lemma tags_distinct: "header_ok h \<Longrightarrow> distinct (tags h)"
  by (simp add: header_ok_def)

lemma base_types_distinct: "header_ok h \<Longrightarrow> distinct (base_types h)"
  by (simp add: header_ok_def)

lemma distinct_others: "distinct (A @ x # B) \<Longrightarrow> list_all (\<lambda>y. x \<noteq> y) (A @ B)"
  by (auto simp add: list_all_iff)

lemma T_VOID_label:
  assumes "header_ok h"
  shows "list_all (\<lambda>y. T_VOID h \<noteq> y)
           [T_SCHAR h, T_UCHAR h, T_SHORT h, T_USHORT h, T_INT h, T_UINT h,
            T_PTR h, T_FUNC h, T_LONG h, T_ULONG h, T_LONGLONG h, T_ULONGLONG h,
            T_ENUM h, T_FLOAT h, T_DOUBLE h, T_STRUCT h, T_UNION h, T_ARRAY h]"
proof -
  have "tags h = [] @ T_VOID h # [T_SCHAR h, T_UCHAR h, T_SHORT h, T_USHORT h, T_INT h, T_UINT h,
            T_PTR h, T_FUNC h, T_LONG h, T_ULONG h, T_LONGLONG h, T_ULONGLONG h,
            T_ENUM h, T_FLOAT h, T_DOUBLE h, T_STRUCT h, T_UNION h, T_ARRAY h]"
    by (simp add: tags_def)
  with tags_distinct [OF assms] have "distinct (\<dots>)" by (simp only:)
  then show ?thesis by (rule distinct_others [THEN back_subst [where P = "list_all _"]]) simp
qed

lemma T_PTR_label:
  assumes "header_ok h"
  shows "list_all (\<lambda>y. T_PTR h \<noteq> y)
           [T_VOID h, T_SCHAR h, T_UCHAR h, T_SHORT h, T_USHORT h, T_INT h, T_UINT h,
            T_FUNC h, T_LONG h, T_ULONG h, T_LONGLONG h, T_ULONGLONG h,
            T_ENUM h, T_FLOAT h, T_DOUBLE h, T_STRUCT h, T_UNION h, T_ARRAY h]"
proof -
  have "tags h = [T_VOID h, T_SCHAR h, T_UCHAR h, T_SHORT h, T_USHORT h, T_INT h, T_UINT h]
          @ T_PTR h # [T_FUNC h, T_LONG h, T_ULONG h, T_LONGLONG h, T_ULONGLONG h,
            T_ENUM h, T_FLOAT h, T_DOUBLE h, T_STRUCT h, T_UNION h, T_ARRAY h]"
    by (simp add: tags_def)
  with tags_distinct [OF assms] have "distinct (\<dots>)" by (simp only:)
  then show ?thesis by (rule distinct_others [THEN back_subst [where P = "list_all _"]]) simp
qed


lemma T_ARRAY_label:
  assumes "header_ok h"
  shows "list_all (\<lambda>y. T_ARRAY h \<noteq> y)
           [T_VOID h, T_SCHAR h, T_UCHAR h, T_SHORT h, T_USHORT h, T_INT h, T_UINT h,
            T_PTR h, T_FUNC h, T_LONG h, T_ULONG h, T_LONGLONG h, T_ULONGLONG h,
            T_ENUM h, T_FLOAT h, T_DOUBLE h, T_STRUCT h, T_UNION h]"
proof -
  have "tags h = [T_VOID h, T_SCHAR h, T_UCHAR h, T_SHORT h, T_USHORT h, T_INT h, T_UINT h,
            T_PTR h, T_FUNC h, T_LONG h, T_ULONG h, T_LONGLONG h, T_ULONGLONG h,
            T_ENUM h, T_FLOAT h, T_DOUBLE h, T_STRUCT h, T_UNION h] @ T_ARRAY h # []"
    by (simp add: tags_def)
  with tags_distinct [OF assms] have "distinct (\<dots>)" by (simp only:)
  then show ?thesis by (rule distinct_others [THEN back_subst [where P = "list_all _"]]) simp
qed

lemma T_STRUCT_label:
  assumes "header_ok h"
  shows "list_all (\<lambda>y. T_STRUCT h \<noteq> y)
           [T_VOID h, T_SCHAR h, T_UCHAR h, T_SHORT h, T_USHORT h, T_INT h, T_UINT h,
            T_PTR h, T_FUNC h, T_LONG h, T_ULONG h, T_LONGLONG h, T_ULONGLONG h,
            T_ENUM h, T_FLOAT h, T_DOUBLE h, T_UNION h, T_ARRAY h]"
proof -
  have "tags h = [T_VOID h, T_SCHAR h, T_UCHAR h, T_SHORT h, T_USHORT h, T_INT h, T_UINT h,
            T_PTR h, T_FUNC h, T_LONG h, T_ULONG h, T_LONGLONG h, T_ULONGLONG h,
            T_ENUM h, T_FLOAT h, T_DOUBLE h] @ T_STRUCT h # [T_UNION h, T_ARRAY h]"
    by (simp add: tags_def)
  with tags_distinct [OF assms] have "distinct (\<dots>)" by (simp only:)
  then show ?thesis by (rule distinct_others [THEN back_subst [where P = "list_all _"]]) simp
qed

lemma T_UNION_label:
  assumes "header_ok h"
  shows "list_all (\<lambda>y. T_UNION h \<noteq> y)
           [T_VOID h, T_SCHAR h, T_UCHAR h, T_SHORT h, T_USHORT h, T_INT h, T_UINT h,
            T_PTR h, T_FUNC h, T_LONG h, T_ULONG h, T_LONGLONG h, T_ULONGLONG h,
            T_ENUM h, T_FLOAT h, T_DOUBLE h, T_STRUCT h, T_ARRAY h]"
proof -
  have "tags h = [T_VOID h, T_SCHAR h, T_UCHAR h, T_SHORT h, T_USHORT h, T_INT h, T_UINT h,
            T_PTR h, T_FUNC h, T_LONG h, T_ULONG h, T_LONGLONG h, T_ULONGLONG h,
            T_ENUM h, T_FLOAT h, T_DOUBLE h, T_STRUCT h] @ T_UNION h # [T_ARRAY h]"
    by (simp add: tags_def)
  with tags_distinct [OF assms] have "distinct (\<dots>)" by (simp only:)
  then show ?thesis by (rule distinct_others [THEN back_subst [where P = "list_all _"]]) simp
qed

lemma T_TYPE_ARRAY_label:
  assumes "header_ok h"
  shows "list_all (\<lambda>y. T_TYPE_ARRAY h \<noteq> y)
           [T_TYPE_CHAR h, T_TYPE_SHORT h, T_TYPE_INT h, T_TYPE_LONG h, T_TYPE_LONGLONG h,
            T_TYPE_FLOAT h, T_TYPE_DOUBLE h, T_TYPE_VOID h, T_TYPE_STRUCT h, T_TYPE_UNION h,
            T_TYPE_PTR h, T_TYPE_FUNC h]"
proof -
  have "base_types h = [T_TYPE_CHAR h, T_TYPE_SHORT h, T_TYPE_INT h, T_TYPE_LONG h,
            T_TYPE_LONGLONG h, T_TYPE_FLOAT h, T_TYPE_DOUBLE h, T_TYPE_VOID h,
            T_TYPE_STRUCT h, T_TYPE_UNION h] @ T_TYPE_ARRAY h # [T_TYPE_PTR h, T_TYPE_FUNC h]"
    by (simp add: base_types_def)
  with base_types_distinct [OF assms] have "distinct (\<dots>)" by (simp only:)
  then show ?thesis by (rule distinct_others [THEN back_subst [where P = "list_all _"]]) simp
qed

lemma T_TYPE_PTR_label:
  assumes "header_ok h"
  shows "list_all (\<lambda>y. T_TYPE_PTR h \<noteq> y)
           [T_TYPE_CHAR h, T_TYPE_SHORT h, T_TYPE_INT h, T_TYPE_LONG h, T_TYPE_LONGLONG h,
            T_TYPE_FLOAT h, T_TYPE_DOUBLE h, T_TYPE_VOID h, T_TYPE_STRUCT h, T_TYPE_UNION h,
            T_TYPE_ARRAY h, T_TYPE_FUNC h]"
proof -
  have "base_types h = [T_TYPE_CHAR h, T_TYPE_SHORT h, T_TYPE_INT h, T_TYPE_LONG h,
            T_TYPE_LONGLONG h, T_TYPE_FLOAT h, T_TYPE_DOUBLE h, T_TYPE_VOID h,
            T_TYPE_STRUCT h, T_TYPE_UNION h, T_TYPE_ARRAY h] @ T_TYPE_PTR h # [T_TYPE_FUNC h]"
    by (simp add: base_types_def)
  with base_types_distinct [OF assms] have "distinct (\<dots>)" by (simp only:)
  then show ?thesis by (rule distinct_others [THEN back_subst [where P = "list_all _"]]) simp
qed


section \<open>Well-formed type strings end at their sentinel\<close>

lemma marked_notin: "list_all (\<lambda>c. c AND 0x8000 \<noteq> 0) P \<Longrightarrow> (0 :: type) \<notin> set P"
  by (auto simp add: list_all_iff)

lemma TypeLen_body:
  "T_END h = 0 \<Longrightarrow> 0 \<notin> set B \<Longrightarrow> TypeLen h (B @ 0 # rest) = Inr (length B)"
  by (induction B) auto


lemma TypeCpy_short:
  "0 \<notin> set B \<Longrightarrow> length Dest \<le> length B \<Longrightarrow> TypeCpy Dest (B @ 0 # rest) = Inl OutOfBounds"
proof (induction B arbitrary: Dest)
  case Nil
  then show ?case by (cases Dest) auto
next
  case (Cons b B)
  then show ?case by (cases Dest) auto
qed

lemma wf_type_shape:
  "header_ok h \<Longrightarrow> wf_type h T \<Longrightarrow> \<exists>B. T = B @ [0] \<and> 0 \<notin> set B"
proof (induction h T rule: wf_type.induct)
  case (1 h)
  then show ?case by simp
next
  case (2 h T0 T1)
  let ?U = "UnqualifiedType h T0"
  let ?N = "DECODE_SIZE h"
  have E: "T_END h = 0" using "2.prems"(1) by (simp add: header_ok_def)
  have "?U \<in> set (tags h)"
    using "2.prems"(2) by (auto simp add: Let_def tags_def split: if_splits)
  then have T0: "T0 \<noteq> 0" using "2.prems"(1) by (rule tag_nonzero [rotated])
  consider (ptr) "?U = T_PTR h"
    | (arr) "?U \<noteq> T_PTR h" "?U = T_ARRAY h \<or> ?U = T_FUNC h"
    | (str) "?U \<noteq> T_PTR h" "\<not> (?U = T_ARRAY h \<or> ?U = T_FUNC h)" "?U = T_STRUCT h \<or> ?U = T_UNION h"
    | (basic) "?U \<noteq> T_PTR h" "\<not> (?U = T_ARRAY h \<or> ?U = T_FUNC h)" "\<not> (?U = T_STRUCT h \<or> ?U = T_UNION h)"
    by blast
  then show ?case
  proof cases
    case ptr
    with "2.prems" have "wf_type h T1" by simp
    from "2.IH"(1) [OF refl ptr "2.prems"(1) this]
    obtain B where "T1 = B @ [0]" "0 \<notin> set B" by blast
    with T0 have "T0 # T1 = (T0 # B) @ [0] \<and> 0 \<notin> set (T0 # B)" by simp
    then show ?thesis by blast
  next
    case arr
    with "2.prems" have p: "is_payload h (take ?N T1)" and w: "wf_type h (drop ?N T1)"
      by (simp_all add: Let_def)
    from "2.IH"(2) [OF refl arr "2.prems"(1) w]
    obtain B where B: "drop ?N T1 = B @ [0]" "0 \<notin> set B" by blast
    have "T1 = take ?N T1 @ drop ?N T1" by simp
    then have "T0 # T1 = (T0 # take ?N T1 @ B) @ [0]" using B(1) by simp
    moreover have "0 \<notin> set (T0 # take ?N T1 @ B)"
      using T0 B(2) p by (auto simp add: is_payload_def dest: marked_notin)
    ultimately show ?thesis by blast
  next
    case str
    with "2.prems" have p: "is_payload h (take ?N T1)" and w: "drop ?N T1 = [T_END h]"
      by (simp_all add: Let_def)
    have "T1 = take ?N T1 @ drop ?N T1" by simp
    then have "T0 # T1 = (T0 # take ?N T1) @ [0]" using w E by simp
    moreover have "0 \<notin> set (T0 # take ?N T1)"
      using T0 p by (auto simp add: is_payload_def dest: marked_notin)
    ultimately show ?thesis by blast
  next
    case basic
    with "2.prems" have "T1 = [T_END h]" by (simp add: Let_def)
    with T0 E have "T0 # T1 = [T0] @ [0] \<and> 0 \<notin> set [T0]" by simp
    then show ?thesis by blast
  qed
qed

lemma wf_type_TypeLen:
  assumes "header_ok h" and "wf_type h T"
  shows "TypeLen h T = Inr (length T - 1)"
proof -
  from wf_type_shape [OF assms] obtain B where B: "T = B @ [0]" "0 \<notin> set B" by blast
  from assms(1) have "T_END h = 0" by (simp add: header_ok_def)
  from TypeLen_body [OF this B(2), of "[]"] B(1) show ?thesis by simp
qed



lemma wf_type_ptr:
  assumes ok: "header_ok h" and w: "wf_type h T"
  shows "wf_type h (T_PTR h # T)"
proof -
  have "UnqualifiedType h (T_PTR h) = T_PTR h"
    using ok tag_mem(1) by (rule UnqualifiedType_tag)
  then show ?thesis using w by simp
qed





section \<open>Pointer construction and indirection\<close>

lemma TypeLen_bound: "TypeLen h T = Inr n \<Longrightarrow> n < length T"
  by (induction T arbitrary: n) (auto split: if_splits sum.splits)

lemma TypeAlloc_length: "length (TypeAlloc fill n) = n"
  by (simp add: TypeAlloc_def)

lemma PointerTo_result:
  assumes "TypeLen h T = Inr n"
  shows "PointerTo h fill T = Inr (T_PTR h # take (Suc n) T)"
proof -
  let ?P = "(TypeAlloc fill (Suc (Suc n)))[0 := T_PTR h]"
  have n: "n < length T" using assms by (rule TypeLen_bound)
  have len: "length ?P = Suc (Suc n)" by (simp add: TypeAlloc_length)
  have m: "memcpy (drop 1 ?P) T (Suc n) = Inr (take (Suc n) T)"
    using n len by (simp add: memcpy_def)
  have t: "take 1 ?P = [T_PTR h]"
    using TypeAlloc_length [of fill "Suc (Suc n)"]
    by (cases "TypeAlloc fill (Suc (Suc n))") auto
  show ?thesis
    using assms m t by (simp add: PointerTo_def Let_def)
qed

lemma SizeOf_ptr:
  assumes ok: "header_ok h"
  shows "SizeOf h mem (T_PTR h # T1) = Inr (SIZEOF_PTR h)"
proof -
  have U: "UnqualifiedType h (T_PTR h) = T_PTR h"
    using ok tag_mem(1) by (rule UnqualifiedType_tag)
  show ?thesis
    using T_PTR_label [OF ok] by (simp add: U Let_def)
qed

lemma Indirect_ptr:
  assumes ok: "header_ok h"
  shows "Indirect h (T_PTR h # T1) = Inr T1"
proof -
  have "T_TYPE_PTR h \<noteq> T_TYPE_ARRAY h"
    using ok by (auto simp add: header_ok_def base_types_def)
  then show ?thesis
    using ok by (simp add: Indirect_def IsTypeArray_def header_ok_def)
qed


text \<open>
  C4. For a well-formed type string \<open>T\<close>, \<open>PointerTo\<close> returns a type string whose length
  is the length of \<open>T\<close> plus one and whose size is \<open>SIZEOF_PTR\<close>, whatever \<open>T\<close> is and
  whatever the fresh block held.
\<close>

theorem PointerTo_length_size:
  assumes "header_ok h" and "wf_type h T"
  shows "\<exists>P n. PointerTo h fill T = Inr P \<and> TypeLen h T = Inr n \<and>
           TypeLen h P = Inr (n + 1) \<and> SizeOf h mem P = Inr (SIZEOF_PTR h)"
proof -
  let ?n = "length T - 1"
  have n: "TypeLen h T = Inr ?n" using assms by (rule wf_type_TypeLen)
  have "T \<noteq> []" using assms(2) by auto
  then have tk: "take (Suc ?n) T = T" by simp
  have P: "PointerTo h fill T = Inr (T_PTR h # T)"
    using PointerTo_result [OF n, of fill] tk by simp
  have "wf_type h (T_PTR h # T)" using assms by (rule wf_type_ptr)
  with assms(1) have "TypeLen h (T_PTR h # T) = Inr (length (T_PTR h # T) - 1)"
    by (rule wf_type_TypeLen)
  then have "TypeLen h (T_PTR h # T) = Inr (?n + 1)" using \<open>T \<noteq> []\<close> by simp
  with P n SizeOf_ptr [OF assms(1)] show ?thesis by blast
qed

theorem PointerTo_length_size_witness:
  "header_ok sample_header \<and> wf_type sample_header [0x1121, 0] \<and>
   (\<exists>P n. PointerTo sample_header (\<lambda>i. 0xDEAD) [0x1121, 0] = Inr P \<and>
        TypeLen sample_header [0x1121, 0] = Inr n \<and>
        TypeLen sample_header P = Inr (n + 1) \<and>
        SizeOf sample_header sample_memory P = Inr (SIZEOF_PTR sample_header))"
  using sample_header_ok wf_const_uchar
    PointerTo_length_size [OF sample_header_ok wf_const_uchar, of "\<lambda>i. 0xDEAD" sample_memory]
  by blast


text \<open>
  C3. For a well-formed type string \<open>T\<close>, \<open>Indirect\<close> applied to the result of
  \<open>PointerTo\<close> returns the tokens of \<open>T\<close>, sentinel included.
\<close>

theorem Indirect_PointerTo:
  assumes "header_ok h" and "wf_type h T"
  shows "\<exists>P. PointerTo h fill T = Inr P \<and> Indirect h P = Inr T"
proof -
  let ?n = "length T - 1"
  have n: "TypeLen h T = Inr ?n" using assms by (rule wf_type_TypeLen)
  have "T \<noteq> []" using assms(2) by auto
  then have tk: "take (Suc ?n) T = T" by simp
  have P: "PointerTo h fill T = Inr (T_PTR h # T)"
    using PointerTo_result [OF n, of fill] tk by simp
  with Indirect_ptr [OF assms(1)] show ?thesis by simp
qed

theorem Indirect_PointerTo_witness:
  "header_ok sample_header \<and> wf_type sample_header [0x1121, 0] \<and>
   (\<exists>P. PointerTo sample_header (\<lambda>i. 0xDEAD) [0x1121, 0] = Inr P \<and>
        Indirect sample_header P = Inr [0x1121, 0])"
  using sample_header_ok wf_const_uchar
    Indirect_PointerTo [OF sample_header_ok wf_const_uchar, of "\<lambda>i. 0xDEAD"]
  by blast


section \<open>Sizes\<close>







lemma Decode_chunks_32:
  assumes N: "3 \<le> DECODE_SIZE h"
  shows "Decode h (chunks (DECODE_SIZE h) (c :: ulong) @ E) = Inr c"
proof -
  have "(2::nat) ^ 32 \<le> 2 ^ (15 * DECODE_SIZE h)"
    using N by (intro power_increasing) auto
  moreover have "unat c < 2 ^ 32" using unsigned_less [of c] by simp
  ultimately have "unat c < 2 ^ (15 * DECODE_SIZE h)" by simp
  then show ?thesis by (simp add: Decode_chunks take_bit_fits)
qed









text \<open>
  With a \<open>long\<close> of 64 bits the conversion in \<open>GetElementCount\<close> never yields a
  negative count. The payload of the count -1 then gives the count \<open>2 ^ 32 - 1\<close>, and
  \<open>SizeOf\<close> returns a size other than zero for \<open>int []\<close>.
\<close>

lemma SizeOf_unspecified_long64:
  "GetElementCount sample_header64
     [0x006C, 0xFFFF, 0xFFFF, 0xFFFF, 0xFFFF, 0x800F, 0x0223, 0] = Inr 4294967295 \<and>
   SizeOf sample_header64 sample_memory
     [0x006C, 0xFFFF, 0xFFFF, 0xFFFF, 0xFFFF, 0x800F, 0x0223, 0] = Inr 4294967294 \<and>
   CheckedSizeOf sample_header64 sample_memory
     [0x006C, 0xFFFF, 0xFFFF, 0xFFFF, 0xFFFF, 0x800F, 0x0223, 0] = Inr (4294967294, [])"
  by (simp add: sample_header64_def CheckedSizeOf_def sample_eval)


text \<open>
  C6. Let \<open>SIZEOF_CHAR\<close> be one byte. When \<open>SizeOf\<close> returns a size other than zero,
  \<open>CheckedSizeOf\<close> returns it and reports nothing; when \<open>SizeOf\<close> returns zero,
  \<open>CheckedSizeOf\<close> reports that the size is unknown and returns 1. It never returns
  zero. \<open>CheckedPSizeOf\<close> does the same with \<open>PSizeOf\<close>.
\<close>

theorem CheckedSizeOf_never_zero:
  assumes "SIZEOF_CHAR h = 1"
  shows "(\<forall>s. SizeOf h mem T = Inr s \<longrightarrow>
            CheckedSizeOf h mem T =
              Inr (if s = 0 then (1, [''Size of data type is unknown'']) else (s, []))) \<and>
         (\<forall>r d. CheckedSizeOf h mem T = Inr (r, d) \<longrightarrow> r \<noteq> 0) \<and>
         (\<forall>s. PSizeOf h mem T = Inr s \<longrightarrow>
            CheckedPSizeOf h mem T =
              Inr (if s = 0 then (1, [''Size of data type is unknown'']) else (s, []))) \<and>
         (\<forall>r d. CheckedPSizeOf h mem T = Inr (r, d) \<longrightarrow> r \<noteq> 0)"
  using assms
  by (auto simp add: CheckedSizeOf_def CheckedPSizeOf_def simp del: SizeOf.simps
        split: sum.splits if_splits)

theorem CheckedSizeOf_never_zero_witness:
  "SIZEOF_CHAR sample_header = 1 \<and>
   SizeOf sample_header sample_memory [0x0009, 0] = Inr 0 \<and>
   CheckedSizeOf sample_header sample_memory [0x0009, 0]
     = Inr (1, [''Size of data type is unknown'']) \<and>
   SizeOf sample_header sample_memory [0x0223, 0] = Inr 2 \<and>
   CheckedSizeOf sample_header sample_memory [0x0223, 0] = Inr (2, []) \<and>
   PSizeOf sample_header sample_memory [0x006D, 0x0009, 0] = Inr 0 \<and>
   CheckedPSizeOf sample_header sample_memory [0x006D, 0x0009, 0]
     = Inr (1, [''Size of data type is unknown'']) \<and>
   (1 :: unsigned) \<noteq> 0 \<and> (2 :: unsigned) \<noteq> 0"
proof -
  have c: "SIZEOF_CHAR sample_header = 1" by (simp add: sample_header_def)
  have v: "SizeOf sample_header sample_memory [0x0009, 0] = Inr 0"
    by (simp add: sample_eval)
  have i: "SizeOf sample_header sample_memory [0x0223, 0] = Inr 2"
    by (simp add: sample_eval)
  have p: "PSizeOf sample_header sample_memory [0x006D, 0x0009, 0] = Inr 0"
    by (simp add: PSizeOf_def sample_eval)
  from CheckedSizeOf_never_zero [OF c, of sample_memory "[0x0009, 0]"] v
  have r1: "CheckedSizeOf sample_header sample_memory [0x0009, 0]
     = Inr (1, [''Size of data type is unknown''])"
    by (simp del: SizeOf.simps)
  from CheckedSizeOf_never_zero [OF c, of sample_memory "[0x0223, 0]"] i
  have r2: "CheckedSizeOf sample_header sample_memory [0x0223, 0] = Inr (2, [])"
    by (simp del: SizeOf.simps)
  from CheckedSizeOf_never_zero [OF c, of sample_memory "[0x006D, 0x0009, 0]"] p
  have r3: "CheckedPSizeOf sample_header sample_memory [0x006D, 0x0009, 0]
     = Inr (1, [''Size of data type is unknown''])"
    by (simp del: SizeOf.simps)
  from CheckedSizeOf_never_zero [OF c, of sample_memory "[0x0009, 0]"] r1
  have z1: "(1 :: unsigned) \<noteq> 0" by blast
  from CheckedSizeOf_never_zero [OF c, of sample_memory "[0x0223, 0]"] r2
  have z2: "(2 :: unsigned) \<noteq> 0" by blast
  from c v i p r1 r2 r3 z1 z2 show ?thesis by blast
qed


section \<open>Qualifiers\<close>

lemma GetQualifier_const_only:
  "GetQualifier h T = Inr q \<Longrightarrow> q AND T_QUAL_CONST h = q"
  by (auto simp add: GetQualifier_def split: sum.splits list.splits if_splits)

lemma IsQualVolatile_never:
  assumes "header_ok h"
  shows "IsQualVolatile h T \<noteq> Inr True"
proof
  assume t: "IsQualVolatile h T = Inr True"
  then obtain q where q: "GetQualifier h T = Inr q" and v: "q AND T_QUAL_VOLATILE h \<noteq> 0"
    by (auto simp add: IsQualVolatile_def split: sum.splits)
  have "q AND T_QUAL_VOLATILE h = (q AND T_QUAL_CONST h) AND T_QUAL_VOLATILE h"
    by (simp add: GetQualifier_const_only [OF q])
  also have "\<dots> = q AND (T_QUAL_CONST h AND T_QUAL_VOLATILE h)"
    by (simp add: ac_simps)
  also have "\<dots> = 0" using assms by (simp add: header_ok_def)
  finally show False using v by simp
qed

lemma IsQualConst_plain:
  "T0 AND T_MASK_TYPE h \<noteq> T_TYPE_ARRAY h \<Longrightarrow>
     IsQualConst h (T0 # T1) = Inr (T0 AND T_QUAL_CONST h \<noteq> 0)"
  by (simp add: IsQualConst_def GetQualifier_def IsTypeArray_def ac_simps)

lemma IsQualConst_array:
  "T0 AND T_MASK_TYPE h = T_TYPE_ARRAY h \<Longrightarrow> drop (DECODE_SIZE h) T1 = E0 # E1 \<Longrightarrow>
     IsQualConst h (T0 # T1) = Inr (E0 AND T_QUAL_CONST h \<noteq> 0)"
  by (simp add: IsQualConst_def GetQualifier_def IsTypeArray_def ac_simps)


text \<open>
  C5. \<open>GetQualifier\<close> keeps the const bit only, so \<open>IsQualVolatile\<close> never returns true
  (\<open>IsQualVolatile_never\<close>), while \<open>IsQualConst\<close> reads the const bit of the leading tag,
  or of the element tag for an array. For the type \<open>volatile int\<close> the volatile bit of the
  leading tag is set and \<open>IsQualVolatile\<close> returns false.
\<close>

theorem IsQualVolatile_volatile_int:
  "IsQualVolatile sample_header
     [T_INT sample_header OR T_QUAL_VOLATILE sample_header, T_END sample_header] = Inr False \<and>
   (T_INT sample_header OR T_QUAL_VOLATILE sample_header) AND T_QUAL_VOLATILE sample_header \<noteq> 0"
  by (simp add: IsQualVolatile_def GetQualifier_def IsTypeArray_def sample_header_def)


section \<open>Default char type\<close>

lemma bit_FF_int: "bit (0xFF :: int) n \<longleftrightarrow> n < 8"
proof -
  have "(0xFF :: int) = mask 8" by (simp add: mask_eq_exp_minus_1)
  then show ?thesis by (simp only: bit_simps) auto
qed

lemma bit_80_int: "bit (0x80 :: int) n \<longleftrightarrow> n = 7"
proof -
  have "(0x80 :: int) = push_bit 7 1" by simp
  then show ?thesis by (simp only: bit_simps) auto
qed

lemma low_byte_unsigned: "(C :: 32 word) AND 0xFF = ucast (ucast C :: 8 word)"
  by (rule bit_eqI) (auto simp add: bit_simps bit_FF_int)

lemma bit7: "(C :: 32 word) AND 0x80 \<noteq> 0 \<longleftrightarrow> bit C 7"
proof -
  have "C AND 0x80 = push_bit 7 (of_bool (bit C 7))"
    by (rule bit_eqI) (auto simp add: bit_simps bit_80_int)
  then show ?thesis by (cases "bit C 7") simp_all
qed

lemma low_byte_signed:
  assumes "bit (C :: 32 word) 7"
  shows "C OR NOT 0xFF = scast (ucast C :: 8 word)"
proof (rule bit_eqI)
  fix n
  assume "possible_bit TYPE(32 word) n"
  then have n: "n < 32" by (simp add: possible_bit_word)
  have seven: "m = 7" if "7 \<le> m" "\<not> 8 \<le> m" for m :: nat using that by arith
  show "bit (C OR NOT 0xFF) n = bit (scast (ucast C :: 8 word) :: 32 word) n"
    using n assms
    by (auto simp add: bit_simps bit_signed_iff bit_FF_int min_def not_less dest: seven)
qed


text \<open>
  C7. \<open>GetCharArrayType\<close> returns the array tag, the encoded length, the element tag
  and the sentinel; the element tag is \<open>T_UCHAR\<close> when the setting \<open>SignedChars\<close> is zero
  and \<open>T_SCHAR\<close> otherwise. \<open>SignExtendChar\<close> returns \<open>C | ~0xFF\<close>, the low byte of \<open>C\<close>
  read as a signed number, when the setting is not zero and bit 7 of \<open>C\<close> is set; in
  every other case it returns \<open>C & 0xFF\<close>, the low byte read as an unsigned number.
\<close>

theorem default_char_signedness:
  "(\<exists>T. GetCharArrayType h SignedChars fill Len = Inr T \<and>
        T = T_ARRAY h # chunks (DECODE_SIZE h) (ucast Len :: ulong)
              @ [if SignedChars \<noteq> 0 then T_SCHAR h else T_UCHAR h, T_END h]) \<and>
   SignExtendChar SignedChars C =
     (if SignedChars \<noteq> 0 \<and> bit C 7 then C OR NOT 0xFF else C AND 0xFF) \<and>
   (SignedChars \<noteq> 0 \<and> bit C 7 \<longrightarrow>
      SignExtendChar SignedChars C = scast (ucast C :: 8 word)) \<and>
   (\<not> (SignedChars \<noteq> 0 \<and> bit C 7) \<longrightarrow>
      SignExtendChar SignedChars C = ucast (ucast C :: 8 word))"
proof -
  let ?N = "DECODE_SIZE h"
  let ?A = "TypeAlloc fill (1 + ?N + 2)"
  let ?T = "?A[0 := T_ARRAY h, ?N + 1 := GetDefaultChar h SignedChars, ?N + 2 := T_END h]"
  have len: "length ?T = ?N + 3" by (simp add: TypeAlloc_length)
  have hd: "take 1 ?T = [T_ARRAY h]"
    by (rule nth_equalityI) (auto simp add: TypeAlloc_length)
  have tl: "drop ?N (drop 1 ?T) = [GetDefaultChar h SignedChars, T_END h]"
    by (rule nth_equalityI) (auto simp add: TypeAlloc_length nth_list_update nth_Cons')
  have "Encode h (drop 1 ?T) (ucast Len :: ulong)
      = Inr (chunks ?N (ucast Len :: ulong) @ drop ?N (drop 1 ?T))"
    by (rule Encode_chunks) (simp add: TypeAlloc_length)
  then have "GetCharArrayType h SignedChars fill Len
      = Inr (T_ARRAY h # chunks ?N (ucast Len :: ulong) @ [GetDefaultChar h SignedChars, T_END h])"
    unfolding GetCharArrayType_def Let_def using hd tl by simp
  then have g: "\<exists>T. GetCharArrayType h SignedChars fill Len = Inr T \<and>
        T = T_ARRAY h # chunks (DECODE_SIZE h) (ucast Len :: ulong)
              @ [if SignedChars \<noteq> 0 then T_SCHAR h else T_UCHAR h, T_END h]"
    by (simp add: GetDefaultChar_def)
  have s1: "SignExtendChar SignedChars C =
      (if SignedChars \<noteq> 0 \<and> bit C 7 then C OR NOT 0xFF else C AND 0xFF)"
    by (simp only: SignExtendChar_def bit7)
  have s2: "SignExtendChar SignedChars C = scast (ucast C :: 8 word)"
    if "SignedChars \<noteq> 0 \<and> bit C 7"
  proof -
    from that have "SignExtendChar SignedChars C = C OR NOT 0xFF"
      by (simp add: s1)
    also have "\<dots> = scast (ucast C :: 8 word)"
      using that by (intro low_byte_signed) simp
    finally show ?thesis .
  qed
  have s3: "SignExtendChar SignedChars C = ucast (ucast C :: 8 word)"
    if "\<not> (SignedChars \<noteq> 0 \<and> bit C 7)"
  proof -
    from that have "SignExtendChar SignedChars C = C AND 0xFF"
      by (auto simp add: s1)
    then show ?thesis by (simp only: low_byte_unsigned)
  qed
  from g s1 s2 s3 show ?thesis by blast
qed

theorem default_char_signedness_witness:
  "GetCharArrayType sample_header 0 (\<lambda>i. 0xDEAD) 7
     = Inr [0x006C, 0x8007, 0x8000, 0x8000, 0x8000, 0x8000, T_UCHAR sample_header, 0] \<and>
   GetCharArrayType sample_header 1 (\<lambda>i. 0xDEAD) 7
     = Inr [0x006C, 0x8007, 0x8000, 0x8000, 0x8000, 0x8000, T_SCHAR sample_header, 0] \<and>
   (1 :: 32 word) \<noteq> 0 \<and> bit (0x80 :: 32 word) 7 \<and>
   SignExtendChar 1 0x80 = 0xFFFFFF80 \<and>
   SignExtendChar 0 0x80 = 0x80 \<and>
   SignExtendChar 1 0x17F = 0x7F"
proof -
  have b: "bit (0x80 :: 32 word) 7" by (simp add: bit_simps bit_80_int)
  have nb: "\<not> bit (0x17F :: 32 word) 7"
  proof -
    have "(0x17F :: 32 word) AND 0x80 = 0" by simp
    then show ?thesis using bit7 [of "0x17F"] by simp
  qed
  from default_char_signedness [of sample_header 0 "\<lambda>i. 0xDEAD" 7 "0x80"]
  have r1: "GetCharArrayType sample_header 0 (\<lambda>i. 0xDEAD) 7
     = Inr [0x006C, 0x8007, 0x8000, 0x8000, 0x8000, 0x8000, T_UCHAR sample_header, 0]"
    and r4: "SignExtendChar 0 0x80 = 0x80"
    by (simp_all add: sample_header_def chunks_numeral)
  from default_char_signedness [of sample_header 1 "\<lambda>i. 0xDEAD" 7 "0x80"] b
  have r2: "GetCharArrayType sample_header 1 (\<lambda>i. 0xDEAD) 7
     = Inr [0x006C, 0x8007, 0x8000, 0x8000, 0x8000, 0x8000, T_SCHAR sample_header, 0]"
    and r3: "SignExtendChar 1 0x80 = 0xFFFFFF80"
    by (simp_all add: sample_header_def chunks_numeral)
  from default_char_signedness [of sample_header 1 "\<lambda>i. 0xDEAD" 7 "0x17F"] nb
  have r5: "SignExtendChar 1 0x17F = 0x7F"
    by simp
  from r1 r2 r3 r4 r5 b show ?thesis by simp
qed


section \<open>Code generator class\<close>

lemma TypeOf_address:
  assumes ok: "header_ok h"
    and U: "UnqualifiedType h T0 = T_PTR h \<or> UnqualifiedType h T0 = T_ARRAY h \<or>
            UnqualifiedType h T0 = T_STRUCT h \<or> UnqualifiedType h T0 = T_UNION h"
  shows "TypeOf h mem (T0 # T1) = Inr (CF_INT h OR CF_UNSIGNED h, [])"
proof -
  consider (p) "UnqualifiedType h T0 = T_PTR h" | (a) "UnqualifiedType h T0 = T_ARRAY h"
    | (s) "UnqualifiedType h T0 = T_STRUCT h" | (u) "UnqualifiedType h T0 = T_UNION h"
    using U by blast
  then show ?thesis
  proof cases
    case p
    then show ?thesis using T_PTR_label [OF ok] by (simp add: TypeOf_def Let_def)
  next
    case a
    then show ?thesis using T_ARRAY_label [OF ok] by (simp add: TypeOf_def Let_def)
  next
    case s
    then show ?thesis using T_STRUCT_label [OF ok] by (simp add: TypeOf_def Let_def)
  next
    case u
    then show ?thesis using T_UNION_label [OF ok] by (simp add: TypeOf_def Let_def)
  qed
qed

lemma TypeOf_illegal:
  assumes "UnqualifiedType h T0 \<notin> set (TypeOf_labels h)"
  shows "TypeOf h mem (T0 # T1) = Inr (CF_INT h, [''Illegal type''])"
  using assms by (simp add: TypeOf_def TypeOf_labels_def Let_def)

lemma TypeOf_silent:
  assumes "UnqualifiedType h T0 \<in> set (TypeOf_labels h)"
    and "TypeOf h mem (T0 # T1) = Inr (r, d)"
  shows "d = []"
  using assms
  by (simp add: TypeOf_def TypeOf_labels_def Let_def split: if_splits sum.splits option.splits)


text \<open>
  C8. \<open>TypeOf\<close> returns \<open>CF_INT | CF_UNSIGNED\<close> and no diagnostic for every type whose
  unqualified leading tag is pointer, array, struct or union. For void, and for every
  other tag that is not a case label of the switch, it reports \<open>Illegal type\<close> and returns
  \<open>CF_INT\<close>. Whenever it reports a diagnostic, the tag is not a case label.
\<close>

theorem TypeOf_classes:
  assumes ok: "header_ok h"
  shows "(UnqualifiedType h T0 \<in> {T_PTR h, T_ARRAY h, T_STRUCT h, T_UNION h} \<longrightarrow>
            TypeOf h mem (T0 # T1) = Inr (CF_INT h OR CF_UNSIGNED h, [])) \<and>
         (UnqualifiedType h T0 = T_VOID h \<or> UnqualifiedType h T0 \<notin> set (TypeOf_labels h) \<longrightarrow>
            TypeOf h mem (T0 # T1) = Inr (CF_INT h, [''Illegal type''])) \<and>
         (\<forall>r d. TypeOf h mem (T0 # T1) = Inr (r, d) \<and> d \<noteq> [] \<longrightarrow>
            UnqualifiedType h T0 \<notin> set (TypeOf_labels h))"
proof -
  have void: "T_VOID h \<notin> set (TypeOf_labels h)"
    using T_VOID_label [OF ok] by (simp add: TypeOf_labels_def)
  have a: "TypeOf h mem (T0 # T1) = Inr (CF_INT h OR CF_UNSIGNED h, [])"
    if "UnqualifiedType h T0 \<in> {T_PTR h, T_ARRAY h, T_STRUCT h, T_UNION h}"
    using that by (intro TypeOf_address [OF ok]) auto
  have b: "TypeOf h mem (T0 # T1) = Inr (CF_INT h, [''Illegal type''])"
    if "UnqualifiedType h T0 = T_VOID h \<or> UnqualifiedType h T0 \<notin> set (TypeOf_labels h)"
    using that void by (intro TypeOf_illegal) auto
  have c: "UnqualifiedType h T0 \<notin> set (TypeOf_labels h)"
    if "TypeOf h mem (T0 # T1) = Inr (r, d) \<and> d \<noteq> []" for r d
    using that TypeOf_silent [of h T0 mem T1 r d] by blast
  from a b c show ?thesis by blast
qed

theorem TypeOf_classes_witness:
  "header_ok sample_header \<and>
   UnqualifiedType sample_header 0x106D \<in> {T_PTR sample_header, T_ARRAY sample_header,
      T_STRUCT sample_header, T_UNION sample_header} \<and>
   TypeOf sample_header sample_memory [0x106D, 0x0009, 0]
     = Inr (CF_INT sample_header OR CF_UNSIGNED sample_header, []) \<and>
   UnqualifiedType sample_header 0x0009 = T_VOID sample_header \<and>
   TypeOf sample_header sample_memory [0x0009, 0]
     = Inr (CF_INT sample_header, [''Illegal type'']) \<and>
   UnqualifiedType sample_header 0x0009 \<notin> set (TypeOf_labels sample_header)"
proof -
  have p: "UnqualifiedType sample_header 0x106D \<in> {T_PTR sample_header, T_ARRAY sample_header,
      T_STRUCT sample_header, T_UNION sample_header}"
    by (simp add: sample_eval)
  have v: "UnqualifiedType sample_header 0x0009 = T_VOID sample_header"
    by (simp add: sample_eval)
  note t1 = TypeOf_classes [OF sample_header_ok, of "0x106D" sample_memory "[0x0009, 0]"]
  note t2 = TypeOf_classes [OF sample_header_ok, of "0x0009" sample_memory "[0]"]
  from t1 p have r1: "TypeOf sample_header sample_memory [0x106D, 0x0009, 0]
     = Inr (CF_INT sample_header OR CF_UNSIGNED sample_header, [])"
    by blast
  from t2 v have r2: "TypeOf sample_header sample_memory [0x0009, 0]
     = Inr (CF_INT sample_header, [''Illegal type''])"
    by blast
  from t2 r2 have r3: "UnqualifiedType sample_header 0x0009 \<notin> set (TypeOf_labels sample_header)"
    by blast
  from sample_header_ok p v r1 r2 r3 show ?thesis by blast
qed


section \<open>Rendering\<close>

lemma PrintType_array:
  assumes ok: "header_ok h"
    and T0: "T0 \<noteq> T_END h"
    and B: "fst (PrintQualSign h T0) AND T_MASK_TYPE h = T_TYPE_ARRAY h"
    and el: "PrintType h mem (drop (DECODE_SIZE h) Type1) = Inr r"
    and sz: "(Decode h Type1 :: fault + ulong) = Inr Sz"
  shows "PrintType h mem (T0 # Type1) =
           Inr (snd (PrintQualSign h T0) @ r @
                (if Sz = 0 then ''[]'' else ''['' @ dec (unat Sz) @ '']''))"
  using T_TYPE_ARRAY_label [OF ok] T0 el sz by (simp add: B Let_def)

lemma PrintType_ptr:
  assumes ok: "header_ok h"
    and T0: "T0 \<noteq> T_END h"
    and B: "fst (PrintQualSign h T0) AND T_MASK_TYPE h = T_TYPE_PTR h"
    and el: "PrintType h mem Type1 = Inr r"
  shows "PrintType h mem (T0 # Type1) = Inr (snd (PrintQualSign h T0) @ r @ ''*'')"
  using T_TYPE_PTR_label [OF ok] T0 el by (simp add: B Let_def)

lemma PrintType_examples:
  "PrintType sample_header sample_memory
     [0x006C, 0x800A, 0x8000, 0x8000, 0x8000, 0x8000, 0x0223, 0] = Inr ''int[10]''"
  "PrintType sample_header sample_memory
     [0x006C, 0x8000, 0x8000, 0x8000, 0x8000, 0x8000, 0x0223, 0] = Inr ''int[]''"
  "PrintType sample_header sample_memory [0x006D, 0x1121, 0] = Inr ''const unsigned char*''"
  by (simp_all add: sample_eval)

text \<open>
  C9. \<open>PrintType\<close> prints an array as the text of the tag's qualifiers, the element
  type and the bracketed count, and a pointer as the qualifiers, the type pointed to and
  \<open>*\<close> (\<open>PrintType_array\<close>, \<open>PrintType_ptr\<close>). It prints \<open>[]\<close> when the decoded count is 0.
  For the count -1, which \<open>SizeOf\<close> takes for an unspecified length, it prints the count
  as an unsigned number.
\<close>

theorem PrintType_unspecified_length:
  "GetElementCount sample_header
     [T_ARRAY sample_header, 0xFFFF, 0xFFFF, 0x8003, 0x8000, 0x8000,
      T_INT sample_header, T_END sample_header] = Inr (- 1) \<and>
   SizeOf sample_header sample_memory
     [T_ARRAY sample_header, 0xFFFF, 0xFFFF, 0x8003, 0x8000, 0x8000,
      T_INT sample_header, T_END sample_header] = Inr 0 \<and>
   PrintType sample_header sample_memory
     [T_ARRAY sample_header, 0xFFFF, 0xFFFF, 0x8003, 0x8000, 0x8000,
      T_INT sample_header, T_END sample_header] = Inr ''int[4294967295]''"
  by (simp add: sample_eval)


end
